theory Spec2Isabelle
  imports Main "HOL-Library.Sublist"
begin

section \<open>Python strings\<close>

text \<open>
  Python strings are modelled as \<^typ>\<open>string\<close>.  \<open>sep.join(parts)\<close> puts the separator
  between consecutive elements, and nowhere else.
\<close>

fun str_join :: "string \<Rightarrow> string list \<Rightarrow> string" where
  "str_join sep [] = []"
| "str_join sep [x] = x"
| "str_join sep (x # y # ys) = x @ sep @ str_join sep (y # ys)"

text \<open>\<open>str(n)\<close> for a length: the decimal digits, most significant first.\<close>

definition digit :: "nat \<Rightarrow> char" where
  "digit d = ''0123456789'' ! d"

function str_nat :: "nat \<Rightarrow> string" where
  "str_nat n = (if n < 10 then [digit n] else str_nat (n div 10) @ [digit (n mod 10)])"
  by pat_completeness auto
termination
  by (relation "measure (\<lambda>n. n)") auto

declare str_nat.simps [simp del]

text \<open>The first line of a text: everything before the first line feed.\<close>

definition first_line :: "string \<Rightarrow> string" where
  "first_line s = takeWhile (\<lambda>c. c \<noteq> CHR 0x0A) s"

section \<open>The dynamic system prompt (system\_prompt/context\_middleware.py)\<close>

subsection \<open>Data\<close>

text \<open>
  What \<open>store.get\<close> hands back is \<open>None\<close> or an object.  The function applies two
  operations to such an object: its truth value (\<open>if user_prefs:\<close>) and the dictionary
  \<open>user_prefs.value\<close>.  A dictionary entry is represented by the text that the f-string
  renders for it.
\<close>

record item =
  item_bool :: bool
  item_value :: "string \<rightharpoonup> string"

text \<open>
  Everything outside the function: what has been printed, which store lookups have been
  issued, and the state of the store itself.  The record is extensible: whatever else the
  caller keeps (the objects behind the request among it) lives in the extension.
\<close>

datatype effect = is_Print: Print string | StoreGet "string list" string

record 's world =
  effects :: "effect list"
  store :: 's

text \<open>
  The request as the function reads it: \<open>request.runtime.context.user_id\<close>,
  \<open>request.messages\<close> and \<open>request.runtime.store.get\<close>.  A lookup either raises (\<open>Inl\<close>)
  or returns, and may change the store.
\<close>

record ('m, 's, 'e) model_request =
  user_id :: string
  messages :: "'m list"
  store_get :: "string list \<Rightarrow> string \<Rightarrow> 's \<Rightarrow> ('e + item option) \<times> 's"

definition py_print :: "string \<Rightarrow> ('s, 'z) world_scheme \<Rightarrow> ('s, 'z) world_scheme" where
  "py_print s w = w\<lparr>effects := effects w @ [Print s]\<rparr>"

definition dict_get :: "(string \<rightharpoonup> string) \<Rightarrow> string \<Rightarrow> string \<Rightarrow> string" where
  "dict_get d k dflt = (case d k of None \<Rightarrow> dflt | Some v \<Rightarrow> v)"

subsection \<open>The function, block by block\<close>

text \<open>Lines 21 to 23, the state context: one segment for a long conversation.\<close>

definition state_context ::
  "nat \<Rightarrow> string list \<times> ('s, 'z) world_scheme \<Rightarrow> string list \<times> ('s, 'z) world_scheme" where
  "state_context message_count = (\<lambda>(prompt_parts, w).
     if message_count > 10
     then (prompt_parts @ [''This is a long conversation - be extra concise.''],
           py_print '' State Context: Long conversation detected'' w)
     else (prompt_parts, w))"

text \<open>Lines 29 to 34, the store context: one segment for a truthy lookup result.\<close>

fun store_context ::
  "item option \<Rightarrow> string list \<times> ('s, 'z) world_scheme \<Rightarrow> string list \<times> ('s, 'z) world_scheme" where
  "store_context None (prompt_parts, w) =
     (prompt_parts, py_print ''Store Context: No user preferences found'' w)"
| "store_context (Some user_prefs) (prompt_parts, w) =
     (if item_bool user_prefs
      then (let style = dict_get (item_value user_prefs) ''communication_style'' ''balanced''
            in (prompt_parts @ [''User prefers '' @ style @ '' responses.''],
                py_print (''Store Context: Applied '' @ style @ '' preference'') w))
      else (prompt_parts, py_print ''Store Context: No user preferences found'' w))"

text \<open>
  Lines 12 to 34: the value of \<open>prompt_parts\<close> when line 37 is reached, or the exception
  that the lookup raised.
\<close>

definition collect_context ::
  "('m, 's, 'e) model_request \<Rightarrow> ('s, 'z) world_scheme
     \<Rightarrow> ('e + string list) \<times> ('s, 'z) world_scheme" where
  "collect_context request w0 =
     (let uid = user_id request;
          message_count = length (messages request);
          w1 = py_print ('' Context Middleware: user_id='' @ uid @ '', messages=''
                          @ str_nat message_count) w0;
          (prompt_parts, w2) = state_context message_count ([''You are a helpful assistant.''], w1);
          (r, s) = store_get request [''preferences''] uid (store w2);
          w3 = w2\<lparr>effects := effects w2 @ [StoreGet [''preferences''] uid], store := s\<rparr>
      in case r of
           Inl e \<Rightarrow> (Inl e, w3)
         | Inr user_prefs \<Rightarrow>
             (case store_context user_prefs (prompt_parts, w3) of
                (prompt_parts', w4) \<Rightarrow> (Inr prompt_parts', w4)))"

text \<open>Lines 37 to 40: join, print, return.\<close>

definition context_aware_prompt ::
  "('m, 's, 'e) model_request \<Rightarrow> ('s, 'z) world_scheme
     \<Rightarrow> ('e + string) \<times> ('s, 'z) world_scheme" where
  "context_aware_prompt request w0 =
     (case collect_context request w0 of
        (Inl e, w) \<Rightarrow> (Inl e, w)
      | (Inr prompt_parts, w) \<Rightarrow>
          (let final_prompt = str_join [CHR 0x0A] prompt_parts
           in (Inr final_prompt, py_print (''Final prompt: '' @ final_prompt) w)))"

subsection \<open>Vocabulary of the properties\<close>

abbreviation (input) base_segment :: string where
  "base_segment \<equiv> ''You are a helpful assistant.''"

abbreviation (input) long_segment :: string where
  "long_segment \<equiv> ''This is a long conversation - be extra concise.''"

text \<open>A style segment is a segment of the shape \<open>User prefers ... responses.\<close>\<close>

definition is_style_segment :: "string \<Rightarrow> bool" where
  "is_style_segment seg = (prefix ''User prefers '' seg \<and> suffix '' responses.'' seg)"

text \<open>The number of places of a text at which \<open>pat\<close> begins.\<close>

fun occurrences :: "string \<Rightarrow> string \<Rightarrow> nat" where
  "occurrences pat [] = (if pat = [] then 1 else 0)"
| "occurrences pat (c # cs) = (if prefix pat (c # cs) then 1 else 0) + occurrences pat cs"

text \<open>The lines of a text: the pieces between its line feeds.\<close>

fun split_lines :: "string \<Rightarrow> string list" where
  "split_lines [] = [[]]"
| "split_lines (c # cs) =
     (if c = CHR 0x0A then [] # split_lines cs
      else (case split_lines cs of [] \<Rightarrow> [[c]] | l # ls \<Rightarrow> (c # l) # ls))"

text \<open>
  Concrete requests: \<open>n\<close> messages, and a store whose lookup returns \<open>r\<close> (or raises
  \<open>e\<close>) and leaves the store as it is.
\<close>

definition example_request :: "nat \<Rightarrow> item option \<Rightarrow> (unit, unit, string) model_request" where
  "example_request n r =
     \<lparr>user_id = ''user-1'', messages = replicate n (), store_get = (\<lambda>ns k s. (Inr r, s))\<rparr>"

definition failing_request :: "nat \<Rightarrow> string \<Rightarrow> (unit, unit, string) model_request" where
  "failing_request n e =
     \<lparr>user_id = ''user-1'', messages = replicate n (), store_get = (\<lambda>ns k s. (Inl e, s))\<rparr>"

definition example_world :: "unit world" where
  "example_world = \<lparr>effects = [], store = ()\<rparr>"

definition example_item :: "bool \<Rightarrow> (string \<rightharpoonup> string) \<Rightarrow> item" where
  "example_item b d = \<lparr>item_bool = b, item_value = d\<rparr>"


section \<open>The orchestrator (multi\_agent\_example/knowledge\_agent.py)\<close>

subsection \<open>Data\<close>

text \<open>
  Both handlers of the function are \<open>except Exception as e\<close> clauses, and all they use of
  \<open>e\<close> is \<open>str(e)\<close>.  An exception is represented by that text and by its side of the
  class test: \<open>Exception msg\<close> is an instance of \<open>Exception\<close>, \<open>BaseOnly msg\<close> is an
  instance of \<open>BaseException\<close> that is not one of \<open>Exception\<close> (\<open>KeyboardInterrupt\<close>,
  \<open>SystemExit\<close>, \<open>GeneratorExit\<close>, \<open>asyncio.CancelledError\<close>).
\<close>

datatype py_exception = Exception string | BaseOnly string

text \<open>
  What the retrieval hands back: \<open>None\<close>, or a dictionary, represented by its
  \<open>results\<close> entry (\<open>None\<close> when it has none).  The results are dictionaries, each
  represented by its \<open>memory\<close> entry (\<open>None\<close> when it has none, so that \<open>m['memory']\<close>
  raises \<open>KeyError\<close>).
\<close>

datatype memories = NoResponse | Response "string option list option"

text \<open>
  The collaborators of the function: the constructors of the model and the agent, the
  memory tool, the agent call (with \<open>str\<close> applied to its response) and the clock.  Each
  acts on a state of its own and, the clock apart, may raise.
\<close>

record 'x services =
  build_agent :: "'x \<Rightarrow> (py_exception + unit) \<times> 'x"
  mem0_retrieve :: "string \<Rightarrow> string \<Rightarrow> 'x \<Rightarrow> (py_exception + memories) \<times> 'x"
  run_agent :: "string \<Rightarrow> string \<Rightarrow> 'x \<Rightarrow> (py_exception + string) \<times> 'x"
  utc_now :: "'x \<Rightarrow> string \<times> 'x"
  mem0_store :: "string \<Rightarrow> string \<Rightarrow> string \<Rightarrow> 'x \<Rightarrow> (py_exception + unit) \<times> 'x"

text \<open>The trace of a run: what was printed and which collaborator was called, in order.\<close>

datatype agent_event =
    Printed string
  | BuildAgent
  | Retrieve string string
  | RunAgent string string
  | Clock
  | StoreMemory string string string

record 'x agent_world =
  events :: "agent_event list"
  outside :: 'x

definition say :: "string \<Rightarrow> 'x agent_world \<Rightarrow> 'x agent_world" where
  "say s w = w\<lparr>events := events w @ [Printed s]\<rparr>"

definition call :: "agent_event \<Rightarrow> ('x \<Rightarrow> 'r \<times> 'x) \<Rightarrow> 'x agent_world \<Rightarrow> 'r \<times> 'x agent_world" where
  "call ev f w = (case f (outside w) of (r, x) \<Rightarrow> (r, \<lparr>events = events w @ [ev], outside = x\<rparr>))"

text \<open>\<open>s.lower()\<close> on the letters A to Z; other characters stay.\<close>

definition lower_char :: "char \<Rightarrow> char" where
  "lower_char c =
     (case map_of (zip ''ABCDEFGHIJKLMNOPQRSTUVWXYZ'' ''abcdefghijklmnopqrstuvwxyz'') c of
        None \<Rightarrow> c | Some d \<Rightarrow> d)"

definition py_lower :: "string \<Rightarrow> string" where
  "py_lower s = map lower_char s"

subsection \<open>The function, block by block\<close>

text \<open>The test of both handlers (lines 76 and 111); \<open>a in b\<close> is \<^term>\<open>sublist a b\<close>.\<close>

definition credentials_expired :: "string \<Rightarrow> bool" where
  "credentials_expired error_msg =
     (sublist ''ExpiredTokenException'' error_msg \<or> sublist ''expired'' (py_lower error_msg))"

text \<open>Line 71, the generator \<open>f"- {m['memory']}" for m in results\<close>, consumed in order.\<close>

fun memory_lines :: "string option list \<Rightarrow> py_exception + string list" where
  "memory_lines [] = Inr []"
| "memory_lines (None # ms) = Inl (Exception ([CHR 0x27] @ ''memory'' @ [CHR 0x27]))"
| "memory_lines (Some m # ms) =
     (case memory_lines ms of Inl e \<Rightarrow> Inl e | Inr ls \<Rightarrow> Inr ((''- '' @ m) # ls))"

text \<open>Lines 68 to 73, the body of the first \<open>try\<close>.\<close>

definition try_retrieve ::
  "'x services \<Rightarrow> string \<Rightarrow> string \<Rightarrow> 'x agent_world \<Rightarrow> (py_exception + string) \<times> 'x agent_world" where
  "try_retrieve sv topic uid w =
     (case call (Retrieve topic uid) (mem0_retrieve sv topic uid) w of
        (Inl e, w1) \<Rightarrow> (Inl e, w1)
      | (Inr past_memories, w1) \<Rightarrow>
          (case past_memories of
             Response (Some (m # ms)) \<Rightarrow>
               (let w2 = say (''Found '' @ str_nat (length (m # ms)) @ '' relevant prior memories.'') w1
                in case memory_lines (m # ms) of
                     Inl e \<Rightarrow> (Inl e, w2)
                   | Inr ls \<Rightarrow> (Inr (str_join [CHR 0x0A] ls), w2))
           | _ \<Rightarrow> (Inr ''(No relevant prior memory found.)'', w1)))"

text \<open>
  Lines 67 to 81, the first \<open>try\<close> with its handler: the value of \<open>memory_context\<close>,
  or the exception that the handler does not match.
\<close>

definition retrieve_memory_context ::
  "'x services \<Rightarrow> string \<Rightarrow> string \<Rightarrow> 'x agent_world \<Rightarrow> (py_exception + string) \<times> 'x agent_world" where
  "retrieve_memory_context sv topic uid w =
     (case try_retrieve sv topic uid w of
        (Inr memory_context, w1) \<Rightarrow> (Inr memory_context, w1)
      | (Inl (Exception error_msg), w1) \<Rightarrow>
          if credentials_expired error_msg
          then (Inr ''(Memory unavailable - AWS credentials expired.)'',
                say ''AWS session token has expired. Please refresh your AWS credentials.'' w1)
          else (Inr (''(Memory unavailable: '' @ error_msg @ '')''),
                say (''Error retrieving memory: '' @ error_msg) w1)
      | (Inl (BaseOnly error_msg), w1) \<Rightarrow> (Inl (BaseOnly error_msg), w1))"

text \<open>Lines 84 to 93, the f-string of the prompt.\<close>

definition orchestrator_prompt :: "string \<Rightarrow> string \<Rightarrow> string" where
  "orchestrator_prompt memory_context topic =
     [CHR 0x0A] @ ''    MEMORY CONTEXT:'' @ [CHR 0x0A]
     @ ''    '' @ memory_context @ [CHR 0x0A]
     @ [CHR 0x0A] @ ''    USER QUERY:'' @ [CHR 0x0A]
     @ ''    '' @ topic @ [CHR 0x0A]
     @ [CHR 0x0A] @ ''    TASK:'' @ [CHR 0x0A]
     @ ''    Decide which specialized agent to use, invoke it, and return a unified, domain-specific response.''
     @ [CHR 0x0A] @ ''    ''"

text \<open>
  Lines 100 to 114: the summary is stored; a failure to store that the handler matches is
  printed and dropped.
\<close>

definition store_summary ::
  "'x services \<Rightarrow> string \<Rightarrow> string \<Rightarrow> string \<Rightarrow> 'x agent_world
     \<Rightarrow> (py_exception + unit) \<times> 'x agent_world" where
  "store_summary sv topic uid output_text w =
     (case call Clock (utc_now sv) w of
        (timestamp, w1) \<Rightarrow>
          (let content = ''Session summary for '' @ [CHR 0x27] @ topic @ [CHR 0x27] @ '' at ''
                           @ timestamp @ '':'' @ [CHR 0x0A] @ take 800 output_text
           in case call (StoreMemory content uid topic) (mem0_store sv content uid topic) w1 of
                (Inr u, w2) \<Rightarrow>
                  (Inr (), say ''Stored session summary in persistent Mem0 memory.'' w2)
              | (Inl (Exception error_msg), w2) \<Rightarrow>
                  if credentials_expired error_msg
                  then (Inr (), say ''Could not store session summary - AWS credentials expired.'' w2)
                  else (Inr (), say (''Could not store session summary: '' @ error_msg) w2)
              | (Inl (BaseOnly error_msg), w2) \<Rightarrow> (Inl (BaseOnly error_msg), w2)))"

text \<open>The function; \<open>uid\<close> is the argument \<open>user_id\<close>, after its default.\<close>

definition knowledge_orchestrator ::
  "'x services \<Rightarrow> string \<Rightarrow> string \<Rightarrow> 'x agent_world \<Rightarrow> (py_exception + string) \<times> 'x agent_world" where
  "knowledge_orchestrator sv topic uid w0 =
     (let w1 = say ([CHR 0x0A] @ '' [KnowledgeAgent] Coordinating multi-agent reasoning for query: ''
                     @ topic @ [CHR 0x0A]) w0
      in case call BuildAgent (build_agent sv) w1 of
           (Inl e, w2) \<Rightarrow> (Inl e, w2)
         | (Inr knowledge_agent, w2) \<Rightarrow>
             (let w3 = say ''Retrieving prior context from Mem0 memory...'' w2
              in case retrieve_memory_context sv topic uid w3 of
                   (Inl e, w4) \<Rightarrow> (Inl e, w4)
                 | (Inr memory_context, w4) \<Rightarrow>
                     (let prompt = orchestrator_prompt memory_context topic;
                          w5 = say ''Running orchestrator model (Palmyra-X5)...'' w4
                      in case call (RunAgent prompt uid) (run_agent sv prompt uid) w5 of
                           (Inl e, w6) \<Rightarrow> (Inl e, w6)
                         | (Inr output_text, w6) \<Rightarrow>
                             (case store_summary sv topic uid output_text w6 of
                                (Inl e, w7) \<Rightarrow> (Inl e, w7)
                              | (Inr u, w7) \<Rightarrow> (Inr output_text, w7)))))"

text \<open>
  Concrete collaborators: the retrieval raises \<open>e\<close>, the agent answers \<open>ok\<close>, storing
  succeeds.
\<close>

definition example_services :: "py_exception \<Rightarrow> unit services" where
  "example_services e =
     \<lparr>build_agent = (\<lambda>x. (Inr (), x)),
      mem0_retrieve = (\<lambda>q u x. (Inl e, x)),
      run_agent = (\<lambda>p u x. (Inr ''ok'', x)),
      utc_now = (\<lambda>x. (''2025-01-01 00:00:00 UTC'', x)),
      mem0_store = (\<lambda>c u t x. (Inr (), x))\<rparr>"

definition example_agent_world :: "unit agent_world" where
  "example_agent_world = \<lparr>events = [], outside = ()\<rparr>"

section \<open>Properties of the dynamic system prompt\<close>

subsection \<open>What the blocks compute\<close>

lemma store_py_print [simp]: "store (py_print s w) = store w"
  by (simp add: py_print_def)

lemma fst_store_context:
  "fst (store_context r (p, w)) = p @ (case r of None \<Rightarrow> [] | Some it \<Rightarrow>
      if item_bool it then [''User prefers '' @ dict_get (item_value it) ''communication_style'' ''balanced'' @ '' responses.''] else [])"
  by (cases r) (simp_all add: Let_def)

lemma fst_collect_context:
  assumes get: "store_get request [''preferences''] (user_id request) (store w) = (r, s)"
  shows "fst (collect_context request w) =
     (case r of
        Inl e \<Rightarrow> Inl e
      | Inr user_prefs \<Rightarrow>
          Inr ([base_segment]
               @ (if 10 < length (messages request) then [long_segment] else [])
               @ (case user_prefs of None \<Rightarrow> [] | Some it \<Rightarrow>
                    if item_bool it
                    then [''User prefers '' @ dict_get (item_value it) ''communication_style'' ''balanced'' @ '' responses.'']
                    else [])))"
proof (cases r)
  case (Inl e)
  with get show ?thesis
    by (simp add: collect_context_def state_context_def Let_def)
next
  case (Inr up)
  show ?thesis
  proof (cases "10 < length (messages request)")
    case True
    with get Inr show ?thesis
      by (simp add: collect_context_def state_context_def Let_def split_beta fst_store_context)
  next
    case False
    with get Inr show ?thesis
      by (simp add: collect_context_def state_context_def Let_def split_beta fst_store_context)
  qed
qed

lemma fst_context_aware_prompt:
  "fst (context_aware_prompt request w) =
     (case fst (collect_context request w) of
        Inl e \<Rightarrow> Inl e
      | Inr parts \<Rightarrow> Inr (str_join [CHR 0x0A] parts))"
  by (cases "collect_context request w") (simp add: context_aware_prompt_def Let_def split: sum.splits)

lemma collected_shape:
  assumes "fst (collect_context request w) = Inr parts"
  shows "\<exists>style_part. parts = [base_segment]
            @ (if 10 < length (messages request) then [long_segment] else []) @ style_part
          \<and> (style_part = [] \<or> (\<exists>style. style_part = [''User prefers '' @ style @ '' responses.'']))"
proof -
  obtain r s where get: "store_get request [''preferences''] (user_id request) (store w) = (r, s)"
    by (cases "store_get request [''preferences''] (user_id request) (store w)")
  show ?thesis
  proof (cases r)
    case (Inl e)
    with assms fst_collect_context [OF get] show ?thesis by simp
  next
    case (Inr up)
    with assms fst_collect_context [OF get] show ?thesis
      by (cases up) (auto split: if_splits)
  qed
qed

subsection \<open>The concrete requests\<close>

lemma get_example [simp]:
  "store_get (example_request n r) ns k s = (Inr r, s)"
  "user_id (example_request n r) = ''user-1''"
  "length (messages (example_request n r)) = n"
  by (simp_all add: example_request_def)

subsection \<open>Style segments\<close>

lemma style_segment_is_style [simp]:
  "is_style_segment (''User prefers '' @ style @ '' responses.'')"
proof -
  have "suffix '' responses.'' (''User prefers '' @ style @ '' responses.'')"
    by (rule suffixI [of _ "''User prefers '' @ style"]) simp
  moreover have "prefix ''User prefers '' (''User prefers '' @ style @ '' responses.'')"
    by (rule prefixI) simp
  ultimately show ?thesis unfolding is_style_segment_def by blast
qed

lemma fixed_segments_not_style [simp]:
  "\<not> is_style_segment base_segment" "\<not> is_style_segment long_segment"
  by (simp_all add: is_style_segment_def)

subsection \<open>The first line\<close>

lemma first_line_join:
  assumes "CHR 0x0A \<notin> set x"
  shows "first_line (str_join [CHR 0x0A] (x # xs)) = x"
proof (cases xs)
  case Nil
  with assms show ?thesis
    by (auto simp add: first_line_def)
next
  case (Cons y ys)
  with assms show ?thesis
    by (auto simp add: first_line_def takeWhile_append)
qed

lemma join_nonempty: "x \<noteq> [] \<Longrightarrow> str_join sep (x # xs) \<noteq> []"
  by (cases xs) simp_all

text \<open>
  Claim C3.  Whatever the caller, the number of messages and the result that the lookup
  returns, the function returns a text, the text is not empty, and its first line is
  \<open>You are a helpful assistant.\<close>
\<close>

theorem first_line_is_base:
  assumes "store_get request [''preferences''] (user_id request) (store w) = (Inr r, s)"
  shows "\<exists>out. fst (context_aware_prompt request w) = Inr out
           \<and> out \<noteq> [] \<and> first_line out = base_segment"
proof -
  obtain rest where c: "fst (collect_context request w) = Inr (base_segment # rest)"
    using fst_collect_context [OF assms] by simp
  have o: "fst (context_aware_prompt request w) = Inr (str_join [CHR 0x0A] (base_segment # rest))"
    by (simp only: fst_context_aware_prompt c sum.case)
  have n: "str_join [CHR 0x0A] (base_segment # rest) \<noteq> []"
    by (rule join_nonempty) simp
  have f: "first_line (str_join [CHR 0x0A] (base_segment # rest)) = base_segment"
    by (rule first_line_join) simp
  from o n f show ?thesis by blast
qed

theorem first_line_is_base_witness:
  "store_get (example_request 11 (Some (example_item True Map.empty))) [''preferences'']
       (user_id (example_request 11 (Some (example_item True Map.empty)))) (store example_world)
     = (Inr (Some (example_item True Map.empty)), ())
   \<and> (\<exists>out. fst (context_aware_prompt (example_request 11 (Some (example_item True Map.empty)))
                    example_world) = Inr out
          \<and> out \<noteq> [] \<and> first_line out = base_segment)"
  using first_line_is_base
          [of "example_request 11 (Some (example_item True Map.empty))" example_world
              "Some (example_item True Map.empty)" "()"]
  by simp

subsection \<open>The join\<close>



subsection \<open>The whole outcome\<close>

lemma collect_context_outcome:
  assumes get: "store_get request [''preferences''] (user_id request) (store w) = (r, s)"
  shows "snd (collect_context request w) =
     w\<lparr>effects := effects w
          @ [Print ('' Context Middleware: user_id='' @ user_id request @ '', messages=''
                     @ str_nat (length (messages request)))]
          @ (if 10 < length (messages request)
             then [Print '' State Context: Long conversation detected''] else [])
          @ [StoreGet [''preferences''] (user_id request)]
          @ (case r of
               Inl e \<Rightarrow> []
             | Inr None \<Rightarrow> [Print ''Store Context: No user preferences found'']
             | Inr (Some user_prefs) \<Rightarrow>
                 if item_bool user_prefs
                 then [Print (''Store Context: Applied ''
                         @ dict_get (item_value user_prefs) ''communication_style'' ''balanced''
                         @ '' preference'')]
                 else [Print ''Store Context: No user preferences found'']),
        store := s\<rparr>"
proof (cases r)
  case (Inl e)
  with get show ?thesis
    by (simp add: collect_context_def state_context_def py_print_def Let_def)
next
  case (Inr up)
  show ?thesis
  proof (cases up)
    case None
    with get Inr show ?thesis
      by (simp add: collect_context_def state_context_def py_print_def Let_def)
  next
    case (Some it)
    with get Inr show ?thesis
      by (simp add: collect_context_def state_context_def py_print_def Let_def)
  qed
qed

lemma context_aware_prompt_world:
  "snd (context_aware_prompt request w) =
     (case fst (collect_context request w) of
        Inl e \<Rightarrow> snd (collect_context request w)
      | Inr parts \<Rightarrow>
          py_print (''Final prompt: '' @ str_join [CHR 0x0A] parts) (snd (collect_context request w)))"
  by (cases "collect_context request w")
     (simp add: context_aware_prompt_def Let_def split: sum.splits)

subsection \<open>Determinism\<close>

text \<open>
  Claim C5.  Two calls return the same result as soon as the number of messages is the same
  and the lookup for the caller gives the same answer, whatever else differs: the content of
  the messages, the rest of the store, what was printed before.
\<close>

theorem prompt_deterministic:
  assumes "user_id request1 = user_id request2"
    and "length (messages request1) = length (messages request2)"
    and "fst (store_get request1 [''preferences''] (user_id request1) (store w1))
           = fst (store_get request2 [''preferences''] (user_id request2) (store w2))"
  shows "fst (context_aware_prompt request1 w1) = fst (context_aware_prompt request2 w2)"
proof -
  obtain r s1 where g1: "store_get request1 [''preferences''] (user_id request1) (store w1) = (r, s1)"
    by (cases "store_get request1 [''preferences''] (user_id request1) (store w1)")
  obtain r' s2 where g2: "store_get request2 [''preferences''] (user_id request2) (store w2) = (r', s2)"
    by (cases "store_get request2 [''preferences''] (user_id request2) (store w2)")
  from assms(3) g1 g2 have "r' = r" by simp
  with fst_collect_context [OF g1] fst_collect_context [OF g2] assms(2)
  have "fst (collect_context request1 w1) = fst (collect_context request2 w2)"
    by simp
  then show ?thesis
    by (simp only: fst_context_aware_prompt)
qed

theorem prompt_deterministic_witness:
  "user_id (example_request 3 None) = user_id (example_request 3 None)
   \<and> length (messages (example_request 3 None)) = length (messages (example_request 3 None))
   \<and> fst (store_get (example_request 3 None) [''preferences''] (user_id (example_request 3 None))
             (store example_world))
       = fst (store_get (example_request 3 None) [''preferences''] (user_id (example_request 3 None))
               (store (example_world\<lparr>effects := [Print ''earlier output'']\<rparr>)))
   \<and> fst (context_aware_prompt (example_request 3 None) example_world)
       = fst (context_aware_prompt (example_request 3 None)
               (example_world\<lparr>effects := [Print ''earlier output'']\<rparr>))"
  using prompt_deterministic
          [of "example_request 3 None" "example_request 3 None" example_world
              "example_world\<lparr>effects := [Print ''earlier output'']\<rparr>"]
  by simp

subsection \<open>A failing lookup\<close>

text \<open>
  Claim C6.  If the lookup raises \<open>e\<close>, the call ends with that same \<open>e\<close> and returns no
  text.  Up to then it has printed its entry line (and the long-conversation line, if
  any) and has issued the lookup once; nothing follows the failed lookup, neither a second
  lookup nor a segment built from a default.
\<close>

theorem lookup_failure_propagates:
  assumes "store_get request [''preferences''] (user_id request) (store w) = (Inl e, s)"
  shows "context_aware_prompt request w =
           (Inl e,
            w\<lparr>effects := effects w
                 @ [Print ('' Context Middleware: user_id='' @ user_id request @ '', messages=''
                            @ str_nat (length (messages request)))]
                 @ (if 10 < length (messages request)
                    then [Print '' State Context: Long conversation detected''] else [])
                 @ [StoreGet [''preferences''] (user_id request)],
               store := s\<rparr>)"
proof -
  have f: "fst (context_aware_prompt request w) = Inl e"
    using fst_collect_context [OF assms] by (simp add: fst_context_aware_prompt)
  have c: "fst (collect_context request w) = Inl e"
    using fst_collect_context [OF assms] by simp
  have "snd (context_aware_prompt request w) = snd (collect_context request w)"
    by (simp add: context_aware_prompt_world c)
  with collect_context_outcome [OF assms] f show ?thesis
    by (simp add: prod_eq_iff)
qed

theorem lookup_failure_propagates_witness:
  "store_get (failing_request 2 ''store unreachable'') [''preferences'']
       (user_id (failing_request 2 ''store unreachable'')) (store example_world)
     = (Inl ''store unreachable'', ())
   \<and> context_aware_prompt (failing_request 2 ''store unreachable'') example_world =
       (Inl ''store unreachable'',
        \<lparr>effects = [Print '' Context Middleware: user_id=user-1, messages=2'',
                     StoreGet [''preferences''] ''user-1''],
         store = ()\<rparr>)"
  using lookup_failure_propagates
          [of "failing_request 2 ''store unreachable''" example_world "''store unreachable''" "()"]
  by (simp add: failing_request_def example_world_def str_nat.simps digit_def)

subsection \<open>What the call touches\<close>

lemma context_aware_prompt_trace:
  "\<exists>tr. effects (snd (context_aware_prompt request w)) = effects w @ tr
        \<and> filter (\<lambda>x. \<not> is_Print x) tr = [StoreGet [''preferences''] (user_id request)]"
proof -
  obtain r s where get: "store_get request [''preferences''] (user_id request) (store w) = (r, s)"
    by (cases "store_get request [''preferences''] (user_id request) (store w)")
  show ?thesis
  proof (cases "fst (collect_context request w)")
    case (Inl e)
    then show ?thesis
      using collect_context_outcome [OF get]
      by (simp add: context_aware_prompt_world split: sum.splits option.splits)
  next
    case (Inr parts)
    then show ?thesis
      using collect_context_outcome [OF get]
      by (simp add: context_aware_prompt_world py_print_def split: sum.splits option.splits)
  qed
qed

lemma context_aware_prompt_rest:
  "store (snd (context_aware_prompt request w))
     = snd (store_get request [''preferences''] (user_id request) (store w))"
  "world.more (snd (context_aware_prompt request w)) = world.more w"
proof -
  obtain r s where get: "store_get request [''preferences''] (user_id request) (store w) = (r, s)"
    by (cases "store_get request [''preferences''] (user_id request) (store w)")
  show "store (snd (context_aware_prompt request w))
     = snd (store_get request [''preferences''] (user_id request) (store w))"
    using collect_context_outcome [OF get] get
    by (simp add: context_aware_prompt_world py_print_def split: sum.splits)
  show "world.more (snd (context_aware_prompt request w)) = world.more w"
    using collect_context_outcome [OF get]
    by (simp add: context_aware_prompt_world py_print_def split: sum.splits)
qed

lemma result_ignores_log:
  "fst (context_aware_prompt request \<lparr>effects = l, store = store w, \<dots> = z\<rparr>)
     = fst (context_aware_prompt request w)"
proof -
  obtain r s where get: "store_get request [''preferences''] (user_id request) (store w) = (r, s)"
    by (cases "store_get request [''preferences''] (user_id request) (store w)")
  then have get': "store_get request [''preferences''] (user_id request)
                     (store \<lparr>effects = l, store = store w, \<dots> = z\<rparr>) = (r, s)"
    by simp
  show ?thesis
    by (simp only: fst_context_aware_prompt fst_collect_context [OF get] fst_collect_context [OF get'])
qed

text \<open>
  Claim C7.  The call leaves everything alone except the output stream and the store it
  queries: what the caller keeps besides these two is unchanged, the store is in the state
  in which the one lookup left it, and the output stream has only grown, by print lines
  around that single lookup.  The returned value does not depend on what has been
  printed, nor on anything else the world holds besides the store.
\<close>

theorem prompt_frame:
  "world.more (snd (context_aware_prompt request w)) = world.more w
   \<and> store (snd (context_aware_prompt request w))
       = snd (store_get request [''preferences''] (user_id request) (store w))
   \<and> (\<exists>tr. effects (snd (context_aware_prompt request w)) = effects w @ tr
          \<and> filter (\<lambda>x. \<not> is_Print x) tr = [StoreGet [''preferences''] (user_id request)])
   \<and> fst (context_aware_prompt request \<lparr>effects = l, store = store w, \<dots> = z\<rparr>)
       = fst (context_aware_prompt request w)"
  using context_aware_prompt_rest [of request w] context_aware_prompt_trace [of request w]
        result_ignores_log [of request l w z]
  by (simp only: simp_thms)

subsection \<open>A record that is not truthy\<close>

text \<open>
  Claim C8.  The test on the lookup result is its truth value.  When the lookup returns an
  object that is not truthy, the call does what it does when the lookup returns \<open>None\<close>:
  same returned text, without a style segment, and same effects.
\<close>

theorem falsy_record_as_absent:
  assumes "store_get request [''preferences''] (user_id request) (store w) = (Inr (Some user_prefs), s)"
    and "\<not> item_bool user_prefs"
  shows "context_aware_prompt request w
           = context_aware_prompt (request\<lparr>store_get := \<lambda>ns k st. (Inr None, s)\<rparr>) w
         \<and> fst (context_aware_prompt request w)
           = Inr (str_join [CHR 0x0A]
                   ([base_segment]
                    @ (if 10 < length (messages request) then [long_segment] else [])))"
proof -
  let ?request' = "request\<lparr>store_get := \<lambda>ns k st. (Inr None, s)\<rparr>"
  have get': "store_get ?request' [''preferences''] (user_id ?request') (store w) = (Inr None, s)"
    by simp
  have c: "fst (collect_context request w) = fst (collect_context ?request' w)"
    using fst_collect_context [OF assms(1)] fst_collect_context [OF get'] assms(2) by simp
  have s: "snd (collect_context request w) = snd (collect_context ?request' w)"
    using collect_context_outcome [OF assms(1)] collect_context_outcome [OF get'] assms(2) by simp
  have "fst (context_aware_prompt request w) = fst (context_aware_prompt ?request' w)"
    by (simp only: fst_context_aware_prompt c)
  moreover have "snd (context_aware_prompt request w) = snd (context_aware_prompt ?request' w)"
    by (simp only: context_aware_prompt_world c s)
  moreover have "fst (context_aware_prompt request w)
           = Inr (str_join [CHR 0x0A]
                   ([base_segment]
                    @ (if 10 < length (messages request) then [long_segment] else [])))"
    using fst_collect_context [OF assms(1)] assms(2)
    by (simp add: fst_context_aware_prompt)
  ultimately show ?thesis
    by (simp only: prod_eq_iff simp_thms)
qed

theorem falsy_record_as_absent_witness:
  "store_get (example_request 11 (Some (example_item False [''communication_style'' \<mapsto> ''formal''])))
      [''preferences'']
      (user_id (example_request 11 (Some (example_item False [''communication_style'' \<mapsto> ''formal'']))))
      (store example_world)
     = (Inr (Some (example_item False [''communication_style'' \<mapsto> ''formal''])), ())
   \<and> \<not> item_bool (example_item False [''communication_style'' \<mapsto> ''formal''])
   \<and> context_aware_prompt
         (example_request 11 (Some (example_item False [''communication_style'' \<mapsto> ''formal''])))
         example_world
       = context_aware_prompt
           ((example_request 11 (Some (example_item False [''communication_style'' \<mapsto> ''formal''])))
              \<lparr>store_get := \<lambda>ns k st. (Inr None, ())\<rparr>) example_world
   \<and> fst (context_aware_prompt
             (example_request 11 (Some (example_item False [''communication_style'' \<mapsto> ''formal''])))
             example_world)
       = Inr (base_segment @ [CHR 0x0A] @ long_segment)"
proof -
  let ?it = "example_item False [''communication_style'' \<mapsto> ''formal'']"
  have h: "store_get (example_request 11 (Some ?it)) [''preferences'']
             (user_id (example_request 11 (Some ?it))) (store example_world)
           = (Inr (Some ?it), ())"
    by simp
  have n: "\<not> item_bool ?it"
    by (simp add: example_item_def)
  note t = falsy_record_as_absent [OF h n]
  have c: "fst (context_aware_prompt (example_request 11 (Some ?it)) example_world)
             = Inr (base_segment @ [CHR 0x0A] @ long_segment)"
    using t [THEN conjunct2] by simp
  show ?thesis
    by (intro conjI h n c t [THEN conjunct1])
qed

subsection \<open>Number of segments\<close>

text \<open>
  Claim C9.  Whenever the function reaches its join with the segments \<open>parts\<close>, the
  returned text is the join of \<open>parts\<close>, and there are at least one and at most three of
  them.  Each of the two conditional blocks keeps the segments it receives, in place, and
  adds at most one at the end.
\<close>

theorem segment_count_bounds:
  assumes "fst (collect_context request w) = Inr parts"
  shows "fst (context_aware_prompt request w) = Inr (str_join [CHR 0x0A] parts)
         \<and> 1 \<le> length parts \<and> length parts \<le> 3
         \<and> prefix p (fst (state_context n (p, w')))
         \<and> length (fst (state_context n (p, w'))) \<le> Suc (length p)
         \<and> prefix p (fst (store_context r (p, w')))
         \<and> length (fst (store_context r (p, w'))) \<le> Suc (length p)"
proof -
  obtain style_part where parts: "parts = [base_segment]
            @ (if 10 < length (messages request) then [long_segment] else []) @ style_part"
    and sp: "style_part = [] \<or> (\<exists>style. style_part = [''User prefers '' @ style @ '' responses.''])"
    using collected_shape [OF assms] by blast
  from sp have "length style_part \<le> 1" by auto
  then have "1 \<le> length parts \<and> length parts \<le> 3"
    by (simp add: parts)
  moreover have "fst (context_aware_prompt request w) = Inr (str_join [CHR 0x0A] parts)"
    by (simp add: fst_context_aware_prompt assms)
  moreover have "prefix p (fst (state_context n (p, w')))
         \<and> length (fst (state_context n (p, w'))) \<le> Suc (length p)"
    by (simp add: state_context_def)
  moreover have "prefix p (fst (store_context r (p, w')))
         \<and> length (fst (store_context r (p, w'))) \<le> Suc (length p)"
    by (simp add: fst_store_context split: option.splits)
  ultimately show ?thesis by (simp only: simp_thms)
qed

theorem segment_count_bounds_witness:
  "fst (collect_context (example_request 11 (Some (example_item True Map.empty))) example_world)
     = Inr [base_segment, long_segment, ''User prefers balanced responses.'']
   \<and> fst (context_aware_prompt (example_request 11 (Some (example_item True Map.empty))) example_world)
     = Inr (base_segment @ [CHR 0x0A] @ long_segment @ [CHR 0x0A] @ ''User prefers balanced responses.'')
   \<and> length [base_segment, long_segment, ''User prefers balanced responses.''] = 3"
proof -
  have a: "fst (collect_context (example_request 11 (Some (example_item True Map.empty))) example_world)
     = Inr [base_segment, long_segment, ''User prefers balanced responses.'']"
    by (simp add: fst_collect_context [where r = "Inr (Some (example_item True Map.empty))" and s = "()"]
          example_item_def dict_get_def)
  show ?thesis
    using segment_count_bounds [OF a, where p = "[]" and n = 0 and r = None and w' = example_world] a
    by simp
qed

subsection \<open>Lines and segments\<close>

text \<open>
  The lines of the returned text are the collected segments as long as no segment
  contains a line feed; the two fixed segments contain none.
\<close>

lemma split_lines_one: "CHR 0x0A \<notin> set x \<Longrightarrow> split_lines x = [x]"
  by (induction x) auto

lemma split_lines_first:
  "CHR 0x0A \<notin> set x \<Longrightarrow> split_lines (x @ CHR 0x0A # rest) = x # split_lines rest"
  by (induction x) auto

lemma split_lines_join:
  "parts \<noteq> [] \<Longrightarrow> \<forall>p\<in>set parts. CHR 0x0A \<notin> set p
     \<Longrightarrow> split_lines (str_join [CHR 0x0A] parts) = parts"
proof (induction "[CHR 0x0A]" parts rule: str_join.induct)
  case 1
  then show ?case by simp
next
  case (2 x)
  then show ?case by (simp add: split_lines_one)
next
  case (3 x y ys)
  then show ?case by (simp add: split_lines_first)
qed

lemma lines_are_segments:
  assumes "fst (collect_context request w) = Inr parts"
    and "\<forall>p\<in>set parts. CHR 0x0A \<notin> set p"
  shows "\<exists>out. fst (context_aware_prompt request w) = Inr out \<and> split_lines out = parts"
proof -
  obtain style_part where "parts = [base_segment]
            @ (if 10 < length (messages request) then [long_segment] else []) @ style_part"
    using collected_shape [OF assms(1)] by blast
  then have "parts \<noteq> []" by simp
  then have "split_lines (str_join [CHR 0x0A] parts) = parts"
    using assms(2) by (rule split_lines_join)
  then show ?thesis
    by (simp add: fst_context_aware_prompt assms(1))
qed

subsection \<open>The long-conversation sentence in the returned text\<close>

lemma long_prefix_not_into_suffix:
  assumes "prefix long_segment (s @ '' responses.'')"
  shows "prefix long_segment s"
proof -
  from assms consider "prefix long_segment s"
    | us where "long_segment = s @ us" "prefix us '' responses.''"
    by (auto simp only: prefix_append)
  then show ?thesis
  proof cases
    case 1
    then show ?thesis .
  next
    case 2
    from 2(1) have "suffix us long_segment"
      by (metis suffixI)
    then have p: "prefix (rev us) (rev long_segment)"
      by (simp only: suffix_to_prefix)
    from 2(2) have "us = [] \<or> rev us \<noteq> [] \<and> hd (rev us) \<noteq> CHR ''.'' \<or> us = '' responses.''"
      by (auto simp add: prefix_Cons)
    then show ?thesis
    proof (elim disjE)
      assume "us = []"
      with 2(1) show ?thesis by simp
    next
      assume "rev us \<noteq> [] \<and> hd (rev us) \<noteq> CHR ''.''"
      with p show ?thesis
        by (cases "rev us") (auto simp add: prefix_Cons)
    next
      assume "us = '' responses.''"
      with p show ?thesis by simp
    qed
  qed
qed

lemma occurrences_style_tail:
  "\<not> sublist long_segment style \<Longrightarrow> occurrences long_segment (style @ '' responses.'') = 0"
proof (induction style)
  case Nil
  show ?case by simp
next
  case (Cons c cs)
  from Cons.prems have np: "\<not> prefix long_segment (c # cs)" and ns: "\<not> sublist long_segment cs"
    by (simp_all add: sublist_Cons_right del: Cons_prefix_Cons)
  from np have "\<not> prefix long_segment ((c # cs) @ '' responses.'')"
    using long_prefix_not_into_suffix by blast
  then have "\<not> prefix long_segment (c # (cs @ '' responses.''))"
    by (simp del: Cons_prefix_Cons)
  moreover have "occurrences long_segment (cs @ '' responses.'') = 0"
    using ns by (rule Cons.IH)
  ultimately show ?case
    by (simp del: Cons_prefix_Cons)
qed

lemma occurrences_zero_iff:
  "pat \<noteq> [] \<Longrightarrow> occurrences pat t = 0 \<longleftrightarrow> \<not> sublist pat t"
  by (induction t) (simp_all add: sublist_Cons_right)

lemma split_lines_nonempty: "split_lines t \<noteq> []"
  by (induction t) (auto split: list.splits)

lemma first_of_split_lines: "split_lines t = l # ls \<Longrightarrow> prefix l t"
  by (induction t arbitrary: l ls) (auto split: if_splits list.splits)

lemma line_is_sublist: "x \<in> set (split_lines t) \<Longrightarrow> sublist x t"
proof (induction t arbitrary: x)
  case Nil
  then show ?case by simp
next
  case (Cons c cs)
  obtain l ls where ls: "split_lines cs = l # ls"
    using split_lines_nonempty [of cs] by (cases "split_lines cs") auto
  show ?case
  proof (cases "c = CHR 0x0A")
    case True
    with Cons.prems have "x = [] \<or> x \<in> set (split_lines cs)" by auto
    then show ?thesis
      using Cons.IH by (auto simp add: sublist_Cons_right)
  next
    case False
    with Cons.prems ls have "x = c # l \<or> x \<in> set ls" by auto
    then show ?thesis
    proof
      assume "x = c # l"
      moreover have "prefix l cs" using ls by (rule first_of_split_lines)
      ultimately show ?thesis by (simp add: sublist_Cons_right)
    next
      assume "x \<in> set ls"
      then have "x \<in> set (split_lines cs)" by (simp add: ls)
      then have "sublist x cs" by (rule Cons.IH)
      then show ?thesis by (simp add: sublist_Cons_right)
    qed
  qed
qed

lemma style_segment_without_long:
  assumes "\<not> sublist long_segment style"
  shows "occurrences long_segment (''User prefers '' @ style @ '' responses.'') = 0"
    and "count_list (split_lines (''User prefers '' @ style @ '' responses.'')) long_segment = 0"
proof -
  show o: "occurrences long_segment (''User prefers '' @ style @ '' responses.'') = 0"
    using occurrences_style_tail [OF assms] by simp
  then have "\<not> sublist long_segment (''User prefers '' @ style @ '' responses.'')"
    by (subst (asm) occurrences_zero_iff) simp_all
  then have "long_segment \<notin> set (split_lines (''User prefers '' @ style @ '' responses.''))"
    using line_is_sublist by blast
  then show "count_list (split_lines (''User prefers '' @ style @ '' responses.'')) long_segment = 0"
    by (simp only: count_list_0_iff) simp
qed

lemma long_counts_without_style:
  "occurrences long_segment (str_join [CHR 0x0A] [base_segment]) = 0"
  "count_list (split_lines (str_join [CHR 0x0A] [base_segment])) long_segment = 0"
  "occurrences long_segment (str_join [CHR 0x0A] [base_segment, long_segment]) = 1"
  "count_list (split_lines (str_join [CHR 0x0A] [base_segment, long_segment])) long_segment = 1"
  by (simp_all add: split_lines_join)

lemma long_counts_with_style:
  assumes "occurrences long_segment seg = 0"
    and "count_list (split_lines seg) long_segment = 0"
  shows "occurrences long_segment (str_join [CHR 0x0A] [base_segment, seg]) = 0"
    and "count_list (split_lines (str_join [CHR 0x0A] [base_segment, seg])) long_segment = 0"
    and "occurrences long_segment (str_join [CHR 0x0A] [base_segment, long_segment, seg]) = 1"
    and "count_list (split_lines (str_join [CHR 0x0A] [base_segment, long_segment, seg])) long_segment = 1"
proof -
  show "occurrences long_segment (str_join [CHR 0x0A] [base_segment, seg]) = 0"
    using assms(1) by simp
  show "occurrences long_segment (str_join [CHR 0x0A] [base_segment, long_segment, seg]) = 1"
    using assms(1) by simp
  have b: "split_lines (base_segment @ CHR 0x0A # t) = base_segment # split_lines t" for t
    by (rule split_lines_first) simp
  have l: "split_lines (long_segment @ CHR 0x0A # t) = long_segment # split_lines t" for t
    by (rule split_lines_first) simp
  have "split_lines (str_join [CHR 0x0A] [base_segment, seg]) = base_segment # split_lines seg"
    using b [of seg] by simp
  then show "count_list (split_lines (str_join [CHR 0x0A] [base_segment, seg])) long_segment = 0"
    using assms(2) by simp
  have "split_lines (str_join [CHR 0x0A] [base_segment, long_segment, seg])
          = base_segment # long_segment # split_lines seg"
    using b [of "long_segment @ CHR 0x0A # seg"] l [of seg] by simp
  then show "count_list (split_lines (str_join [CHR 0x0A] [base_segment, long_segment, seg])) long_segment = 1"
    using assms(2) by simp
qed

text \<open>
  Claim C1, as amended.  Provided the style text that the store holds for the caller (if a
  truthy record is found) does not itself contain the long-conversation sentence, the
  sentence \<open>This is a long conversation - be extra concise.\<close> occurs in the returned text
  exactly once when there are more than 10 messages and not at all when there are 10 or
  fewer; the same holds of the lines of the returned text.
\<close>

theorem long_sentence_in_output:
  assumes "store_get request [''preferences''] (user_id request) (store w) = (Inr r, s)"
    and "\<forall>user_prefs. r = Some user_prefs \<and> item_bool user_prefs \<longrightarrow>
           \<not> sublist long_segment
                 (dict_get (item_value user_prefs) ''communication_style'' ''balanced'')"
  shows "\<exists>out. fst (context_aware_prompt request w) = Inr out
           \<and> occurrences long_segment out = (if 10 < length (messages request) then 1 else 0)
           \<and> count_list (split_lines out) long_segment
                = (if 10 < length (messages request) then 1 else 0)"
proof -
  let ?n = "length (messages request)"
  let ?style_part = "(case r of None \<Rightarrow> [] | Some it \<Rightarrow>
      if item_bool it
      then [''User prefers '' @ dict_get (item_value it) ''communication_style'' ''balanced'' @ '' responses.'']
      else [])"
  let ?out = "str_join [CHR 0x0A]
                ([base_segment] @ (if 10 < ?n then [long_segment] else []) @ ?style_part)"
  have c: "fst (collect_context request w)
             = Inr ([base_segment] @ (if 10 < ?n then [long_segment] else []) @ ?style_part)"
    using fst_collect_context [OF assms(1)] by simp
  have o: "fst (context_aware_prompt request w) = Inr ?out"
    by (simp only: fst_context_aware_prompt c sum.case)
  have "occurrences long_segment ?out = (if 10 < ?n then 1 else 0)
        \<and> count_list (split_lines ?out) long_segment = (if 10 < ?n then 1 else 0)"
  proof (cases "\<exists>it. r = Some it \<and> item_bool it")
    case False
    then have sp: "?style_part = []"
      by (cases r) auto
    show ?thesis
      unfolding sp using long_counts_without_style by (cases "10 < ?n") simp_all
  next
    case True
    then obtain it where it: "r = Some it" "item_bool it" by blast
    define seg where "seg = ''User prefers ''
         @ dict_get (item_value it) ''communication_style'' ''balanced'' @ '' responses.''"
    from assms(2) it
    have clean: "\<not> sublist long_segment (dict_get (item_value it) ''communication_style'' ''balanced'')"
      by blast
    have sp: "?style_part = [seg]"
      using it by (simp add: seg_def)
    have s1: "occurrences long_segment seg = 0"
      and s2: "count_list (split_lines seg) long_segment = 0"
      unfolding seg_def using style_segment_without_long [OF clean] by blast+
    show ?thesis
      unfolding sp using long_counts_with_style [OF s1 s2] by (cases "10 < ?n") simp_all
  qed
  with o show ?thesis by blast
qed

lemma concise_is_clean: "\<not> sublist long_segment ''concise''"
  by code_simp

theorem long_sentence_in_output_witness:
  "store_get (example_request 11 (Some (example_item True [''communication_style'' \<mapsto> ''concise''])))
       [''preferences'']
       (user_id (example_request 11 (Some (example_item True [''communication_style'' \<mapsto> ''concise'']))))
       (store example_world)
     = (Inr (Some (example_item True [''communication_style'' \<mapsto> ''concise''])), ())
   \<and> \<not> sublist long_segment
         (dict_get (item_value (example_item True [''communication_style'' \<mapsto> ''concise'']))
            ''communication_style'' ''balanced'')
   \<and> (\<exists>out. fst (context_aware_prompt
                     (example_request 11 (Some (example_item True [''communication_style'' \<mapsto> ''concise''])))
                     example_world) = Inr out
          \<and> occurrences long_segment out = 1
          \<and> count_list (split_lines out) long_segment = 1)"
proof -
  let ?it = "example_item True [''communication_style'' \<mapsto> ''concise'']"
  have h: "store_get (example_request 11 (Some ?it)) [''preferences'']
             (user_id (example_request 11 (Some ?it))) (store example_world)
           = (Inr (Some ?it), ())"
    by simp
  have d: "dict_get (item_value ?it) ''communication_style'' ''balanced'' = ''concise''"
    by (simp add: example_item_def dict_get_def)
  have n: "\<not> sublist long_segment (dict_get (item_value ?it) ''communication_style'' ''balanced'')"
    by (simp only: d concise_is_clean not_False_eq_True)
  have a: "\<forall>user_prefs. Some ?it = Some user_prefs \<and> item_bool user_prefs \<longrightarrow>
             \<not> sublist long_segment
                   (dict_get (item_value user_prefs) ''communication_style'' ''balanced'')"
    using n by simp
  have t: "\<exists>out. fst (context_aware_prompt (example_request 11 (Some ?it)) example_world) = Inr out
          \<and> occurrences long_segment out = 1
          \<and> count_list (split_lines out) long_segment = 1"
    using long_sentence_in_output [OF h a] by simp
  show ?thesis
    by (intro conjI h n t)
qed

text \<open>
  The claim as it stands fails: with one message, a record whose style holds the sentence
  on a line of its own puts the sentence into the returned text.
\<close>

theorem long_sentence_in_output_counterexample:
  "length (messages (example_request 1 (Some (example_item True
       [''communication_style'' \<mapsto> ''x'' @ [CHR 0x0A] @ long_segment @ [CHR 0x0A] @ ''y''])))) \<le> 10
   \<and> fst (context_aware_prompt
            (example_request 1 (Some (example_item True
               [''communication_style'' \<mapsto> ''x'' @ [CHR 0x0A] @ long_segment @ [CHR 0x0A] @ ''y''])))
            example_world)
       = Inr (base_segment @ [CHR 0x0A] @ ''User prefers x'' @ [CHR 0x0A] @ long_segment
              @ [CHR 0x0A] @ ''y responses.'')
   \<and> occurrences long_segment
         (base_segment @ [CHR 0x0A] @ ''User prefers x'' @ [CHR 0x0A] @ long_segment
              @ [CHR 0x0A] @ ''y responses.'') = 1
   \<and> count_list (split_lines
         (base_segment @ [CHR 0x0A] @ ''User prefers x'' @ [CHR 0x0A] @ long_segment
              @ [CHR 0x0A] @ ''y responses.'')) long_segment = 1"
proof -
  let ?it = "example_item True
       [''communication_style'' \<mapsto> ''x'' @ [CHR 0x0A] @ long_segment @ [CHR 0x0A] @ ''y'']"
  have h: "store_get (example_request 1 (Some ?it)) [''preferences'']
             (user_id (example_request 1 (Some ?it))) (store example_world)
           = (Inr (Some ?it), ())"
    by simp
  have o: "fst (context_aware_prompt (example_request 1 (Some ?it)) example_world)
       = Inr (base_segment @ [CHR 0x0A] @ ''User prefers x'' @ [CHR 0x0A] @ long_segment
              @ [CHR 0x0A] @ ''y responses.'')"
    using fst_collect_context [OF h]
    by (simp add: fst_context_aware_prompt example_item_def dict_get_def)
  have c: "occurrences long_segment
         (base_segment @ [CHR 0x0A] @ ''User prefers x'' @ [CHR 0x0A] @ long_segment
              @ [CHR 0x0A] @ ''y responses.'') = 1"
    by simp
  have l: "count_list (split_lines
         (base_segment @ [CHR 0x0A] @ ''User prefers x'' @ [CHR 0x0A] @ long_segment
              @ [CHR 0x0A] @ ''y responses.'')) long_segment = 1"
    by simp
  have m: "length (messages (example_request 1 (Some ?it))) \<le> 10"
    by simp
  show ?thesis
    by (intro conjI m o c l)
qed

subsection \<open>The style segment in the returned text\<close>

text \<open>
  Claim C2, as amended.  Provided the style text that the store holds for the caller (if a
  truthy record is found) contains no line feed, the lines of the returned text that are
  style segments are: the single line \<open>User prefers {style} responses.\<close>, with the
  record's \<open>communication_style\<close> or \<open>balanced\<close> when the record has no such field,
  if the lookup result is a record that counts as present (a truthy object), and none
  otherwise.
\<close>

theorem style_line_iff_record:
  assumes "store_get request [''preferences''] (user_id request) (store w) = (Inr r, s)"
    and "\<forall>user_prefs. r = Some user_prefs \<and> item_bool user_prefs \<longrightarrow>
           CHR 0x0A \<notin> set (dict_get (item_value user_prefs) ''communication_style'' ''balanced'')"
  shows "\<exists>out. fst (context_aware_prompt request w) = Inr out
           \<and> filter is_style_segment (split_lines out) =
               (case r of
                  None \<Rightarrow> []
                | Some user_prefs \<Rightarrow>
                    if item_bool user_prefs
                    then [''User prefers ''
                          @ (case item_value user_prefs ''communication_style'' of
                               None \<Rightarrow> ''balanced'' | Some style \<Rightarrow> style)
                          @ '' responses.'']
                    else [])"
proof -
  let ?style_part = "(case r of None \<Rightarrow> [] | Some it \<Rightarrow>
      if item_bool it
      then [''User prefers '' @ dict_get (item_value it) ''communication_style'' ''balanced'' @ '' responses.'']
      else [])"
  let ?parts = "[base_segment] @ (if 10 < length (messages request) then [long_segment] else [])
                  @ ?style_part"
  have c: "fst (collect_context request w) = Inr ?parts"
    using fst_collect_context [OF assms(1)] by simp
  have o: "fst (context_aware_prompt request w) = Inr (str_join [CHR 0x0A] ?parts)"
    by (simp only: fst_context_aware_prompt c sum.case)
  have "\<forall>p\<in>set ?style_part. CHR 0x0A \<notin> set p"
    using assms(2) by (cases r) auto
  then have "\<forall>p\<in>set ?parts. CHR 0x0A \<notin> set p"
    by auto
  moreover have "?parts \<noteq> []" by simp
  ultimately have l: "split_lines (str_join [CHR 0x0A] ?parts) = ?parts"
    by (intro split_lines_join)
  have "filter is_style_segment ?style_part = ?style_part"
    by (cases r) (simp_all del: append.simps)
  then have f: "filter is_style_segment ?parts = ?style_part"
    by simp
  have e: "?style_part = (case r of
                  None \<Rightarrow> []
                | Some user_prefs \<Rightarrow>
                    if item_bool user_prefs
                    then [''User prefers ''
                          @ (case item_value user_prefs ''communication_style'' of
                               None \<Rightarrow> ''balanced'' | Some style \<Rightarrow> style)
                          @ '' responses.'']
                    else [])"
    by (simp add: dict_get_def split: option.splits)
  show ?thesis
  proof (intro exI conjI)
    show "fst (context_aware_prompt request w) = Inr (str_join [CHR 0x0A] ?parts)" by (rule o)
    show "filter is_style_segment (split_lines (str_join [CHR 0x0A] ?parts)) = (case r of
                  None \<Rightarrow> []
                | Some user_prefs \<Rightarrow>
                    if item_bool user_prefs
                    then [''User prefers ''
                          @ (case item_value user_prefs ''communication_style'' of
                               None \<Rightarrow> ''balanced'' | Some style \<Rightarrow> style)
                          @ '' responses.'']
                    else [])"
      unfolding l using f e by (rule trans)
  qed
qed

theorem style_line_iff_record_witness:
  "store_get (example_request 5 (Some (example_item True [''communication_style'' \<mapsto> ''concise''])))
       [''preferences'']
       (user_id (example_request 5 (Some (example_item True [''communication_style'' \<mapsto> ''concise'']))))
       (store example_world)
     = (Inr (Some (example_item True [''communication_style'' \<mapsto> ''concise''])), ())
   \<and> CHR 0x0A \<notin> set (dict_get (item_value (example_item True [''communication_style'' \<mapsto> ''concise'']))
                         ''communication_style'' ''balanced'')
   \<and> (\<exists>out. fst (context_aware_prompt
                     (example_request 5 (Some (example_item True [''communication_style'' \<mapsto> ''concise''])))
                     example_world) = Inr out
          \<and> filter is_style_segment (split_lines out) = [''User prefers concise responses.''])"
proof -
  let ?it = "example_item True [''communication_style'' \<mapsto> ''concise'']"
  have h: "store_get (example_request 5 (Some ?it)) [''preferences'']
             (user_id (example_request 5 (Some ?it))) (store example_world)
           = (Inr (Some ?it), ())"
    by simp
  have n: "CHR 0x0A \<notin> set (dict_get (item_value ?it) ''communication_style'' ''balanced'')"
    by (simp add: example_item_def dict_get_def)
  have a: "\<forall>user_prefs. Some ?it = Some user_prefs \<and> item_bool user_prefs \<longrightarrow>
             CHR 0x0A \<notin> set (dict_get (item_value user_prefs) ''communication_style'' ''balanced'')"
    using n by simp
  have t: "\<exists>out. fst (context_aware_prompt (example_request 5 (Some ?it)) example_world) = Inr out
          \<and> filter is_style_segment (split_lines out) = [''User prefers concise responses.'']"
    using style_line_iff_record [OF h a] by (simp add: example_item_def)
  show ?thesis
    by (intro conjI h n t)
qed

text \<open>
  The claim as it stands fails: a record whose style holds a line feed gives a returned
  text with two lines that are style segments, neither of them the segment built from the
  style.
\<close>

theorem style_line_iff_record_counterexample:
  "fst (context_aware_prompt
          (example_request 1 (Some (example_item True
             [''communication_style'' \<mapsto> ''x responses.'' @ [CHR 0x0A] @ ''User prefers y''])))
          example_world)
     = Inr (base_segment @ [CHR 0x0A] @ ''User prefers x responses.'' @ [CHR 0x0A]
            @ ''User prefers y responses.'')
   \<and> filter is_style_segment
        (split_lines (base_segment @ [CHR 0x0A] @ ''User prefers x responses.'' @ [CHR 0x0A]
            @ ''User prefers y responses.''))
       = [''User prefers x responses.'', ''User prefers y responses.'']"
proof -
  let ?it = "example_item True
       [''communication_style'' \<mapsto> ''x responses.'' @ [CHR 0x0A] @ ''User prefers y'']"
  have h: "store_get (example_request 1 (Some ?it)) [''preferences'']
             (user_id (example_request 1 (Some ?it))) (store example_world)
           = (Inr (Some ?it), ())"
    by simp
  have o: "fst (context_aware_prompt (example_request 1 (Some ?it)) example_world)
     = Inr (base_segment @ [CHR 0x0A] @ ''User prefers x responses.'' @ [CHR 0x0A]
            @ ''User prefers y responses.'')"
    using fst_collect_context [OF h]
    by (simp add: fst_context_aware_prompt example_item_def dict_get_def)
  have f: "filter is_style_segment
        (split_lines (base_segment @ [CHR 0x0A] @ ''User prefers x responses.'' @ [CHR 0x0A]
            @ ''User prefers y responses.''))
       = [''User prefers x responses.'', ''User prefers y responses.'']"
    by (simp add: is_style_segment_def suffix_to_prefix)
  show ?thesis
    by (intro conjI o f)
qed

section \<open>Properties of the orchestrator\<close>

lemma outside_say [simp]: "outside (say s w) = outside w"
  by (simp add: say_def)

lemma events_say [simp]: "events (say s w) = events w @ [Printed s]"
  by (simp add: say_def)

lemma store_summary_outcome:
  "\<exists>tr. events (snd (store_summary sv topic uid output_text w)) = events w @ tr"
  "fst (store_summary sv topic uid output_text w) = Inr () \<or>
   (\<exists>n. fst (store_summary sv topic uid output_text w) = Inl (BaseOnly n))"
proof -
  obtain timestamp x1 where c: "utc_now sv (outside w) = (timestamp, x1)"
    by (cases "utc_now sv (outside w)")
  let ?content = "''Session summary for '' @ [CHR 0x27] @ topic @ [CHR 0x27] @ '' at ''
                           @ timestamp @ '':'' @ [CHR 0x0A] @ take 800 output_text"
  obtain r x2 where s: "mem0_store sv ?content uid topic x1 = (r, x2)"
    by (cases "mem0_store sv ?content uid topic x1")
  show "\<exists>tr. events (snd (store_summary sv topic uid output_text w)) = events w @ tr"
  proof (cases r)
    case (Inl e)
    then show ?thesis
      using c s by (cases e) (simp_all add: store_summary_def call_def Let_def)
  next
    case (Inr u)
    then show ?thesis
      using c s by (simp add: store_summary_def call_def Let_def)
  qed
  show "fst (store_summary sv topic uid output_text w) = Inr () \<or>
   (\<exists>n. fst (store_summary sv topic uid output_text w) = Inl (BaseOnly n))"
  proof (cases r)
    case (Inl e)
    then show ?thesis
      using c s by (cases e) (simp_all add: store_summary_def call_def Let_def)
  next
    case (Inr u)
    then show ?thesis
      using c s by (simp add: store_summary_def call_def Let_def)
  qed
qed

lemma retrieve_memory_context_failure:
  assumes "mem0_retrieve sv topic uid (outside w) = (Inl (Exception error_msg), x)"
  shows "retrieve_memory_context sv topic uid w =
           (Inr (if credentials_expired error_msg
                 then ''(Memory unavailable - AWS credentials expired.)''
                 else ''(Memory unavailable: '' @ error_msg @ '')''),
            \<lparr>events = events w
               @ [Retrieve topic uid,
                  Printed (if credentials_expired error_msg
                           then ''AWS session token has expired. Please refresh your AWS credentials.''
                           else ''Error retrieving memory: '' @ error_msg)],
             outside = x\<rparr>)"
  using assms
  by (simp add: retrieve_memory_context_def try_retrieve_def call_def say_def)

text \<open>
  Claim C10, as amended.  When the agent has been built and the memory retrieval raises an
  exception that is an instance of \<open>Exception\<close>, with text \<open>error_msg\<close>, the exception is
  caught: \<open>memory_context\<close> becomes a placeholder, not empty, that begins with
  \<open>(Memory unavailable\<close> (the one for expired credentials or the one quoting the text),
  and the function goes on to call the agent with the prompt built from that placeholder.
  It then ends as that call ends, unless storing the summary raises an exception outside
  \<open>Exception\<close>.
\<close>

theorem retrieval_exception_is_absorbed:
  assumes "build_agent sv (outside w) = (Inr u, x1)"
    and "mem0_retrieve sv topic uid x1 = (Inl (Exception error_msg), x2)"
  shows "\<exists>memory_context tr.
           memory_context =
             (if credentials_expired error_msg
              then ''(Memory unavailable - AWS credentials expired.)''
              else ''(Memory unavailable: '' @ error_msg @ '')'')
         \<and> memory_context \<noteq> []
         \<and> prefix ''(Memory unavailable'' memory_context
         \<and> events (snd (knowledge_orchestrator sv topic uid w)) =
              events w
              @ [Printed ([CHR 0x0A] @ '' [KnowledgeAgent] Coordinating multi-agent reasoning for query: ''
                           @ topic @ [CHR 0x0A]),
                 BuildAgent,
                 Printed ''Retrieving prior context from Mem0 memory...'',
                 Retrieve topic uid,
                 Printed (if credentials_expired error_msg
                          then ''AWS session token has expired. Please refresh your AWS credentials.''
                          else ''Error retrieving memory: '' @ error_msg),
                 Printed ''Running orchestrator model (Palmyra-X5)...'',
                 RunAgent (orchestrator_prompt memory_context topic) uid]
              @ tr
         \<and> (fst (knowledge_orchestrator sv topic uid w)
                = fst (run_agent sv (orchestrator_prompt memory_context topic) uid x2)
              \<or> (\<exists>n. fst (knowledge_orchestrator sv topic uid w) = Inl (BaseOnly n)))"
proof -
  let ?ctx = "(if credentials_expired error_msg
              then ''(Memory unavailable - AWS credentials expired.)''
              else ''(Memory unavailable: '' @ error_msg @ '')'')"
  let ?note = "(if credentials_expired error_msg
                          then ''AWS session token has expired. Please refresh your AWS credentials.''
                          else ''Error retrieving memory: '' @ error_msg)"
  let ?entry = "[CHR 0x0A] @ '' [KnowledgeAgent] Coordinating multi-agent reasoning for query: ''
                     @ topic @ [CHR 0x0A]"
  let ?w1 = "say ?entry w"
  let ?w2 = "\<lparr>events = events ?w1 @ [BuildAgent], outside = x1\<rparr>"
  let ?w3 = "say ''Retrieving prior context from Mem0 memory...'' ?w2"
  let ?w4 = "\<lparr>events = events ?w3 @ [Retrieve topic uid, Printed ?note], outside = x2\<rparr>"
  let ?prompt = "orchestrator_prompt ?ctx topic"
  let ?w5 = "say ''Running orchestrator model (Palmyra-X5)...'' ?w4"
  have b: "call BuildAgent (build_agent sv) ?w1 = (Inr u, ?w2)"
    using assms(1) by (simp add: call_def)
  have r: "mem0_retrieve sv topic uid (outside ?w3) = (Inl (Exception error_msg), x2)"
    using assms(2) by simp
  have m: "retrieve_memory_context sv topic uid ?w3 = (Inr ?ctx, ?w4)"
    by (rule retrieve_memory_context_failure [OF r])
  obtain res x3 where a: "run_agent sv ?prompt uid x2 = (res, x3)"
    by (cases "run_agent sv ?prompt uid x2")
  let ?w6 = "\<lparr>events = events ?w5 @ [RunAgent ?prompt uid], outside = x3\<rparr>"
  have ca: "call (RunAgent ?prompt uid) (run_agent sv ?prompt uid) ?w5 = (res, ?w6)"
    using a by (simp add: call_def)
  have ko: "knowledge_orchestrator sv topic uid w =
              (case res of
                 Inl e \<Rightarrow> (Inl e, ?w6)
               | Inr output_text \<Rightarrow>
                   (case store_summary sv topic uid output_text ?w6 of
                      (Inl e, w7) \<Rightarrow> (Inl e, w7)
                    | (Inr u, w7) \<Rightarrow> (Inr output_text, w7)))"
    unfolding knowledge_orchestrator_def Let_def
    by (simp only: b m ca prod.case sum.case)
  have e6: "events ?w6 = events w @ [Printed ?entry, BuildAgent,
                 Printed ''Retrieving prior context from Mem0 memory...'',
                 Retrieve topic uid, Printed ?note,
                 Printed ''Running orchestrator model (Palmyra-X5)...'',
                 RunAgent ?prompt uid]"
    by simp
  have ev: "\<exists>tr. events (snd (knowledge_orchestrator sv topic uid w)) = events ?w6 @ tr"
  proof (cases res)
    case (Inl e)
    then show ?thesis by (simp add: ko)
  next
    case (Inr output_text)
    obtain tr where "events (snd (store_summary sv topic uid output_text ?w6)) = events ?w6 @ tr"
      using store_summary_outcome(1) by blast
    with Inr show ?thesis
      by (cases "store_summary sv topic uid output_text ?w6")
         (auto simp add: ko split: sum.splits)
  qed
  have res: "fst (knowledge_orchestrator sv topic uid w) = res
             \<or> (\<exists>n. fst (knowledge_orchestrator sv topic uid w) = Inl (BaseOnly n))"
  proof (cases res)
    case (Inl e)
    then show ?thesis by (simp add: ko)
  next
    case (Inr output_text)
    with store_summary_outcome(2) [of sv topic uid output_text ?w6] show ?thesis
      by (cases "store_summary sv topic uid output_text ?w6")
         (auto simp add: ko split: sum.splits)
  qed
  obtain tr where tr: "events (snd (knowledge_orchestrator sv topic uid w)) = events ?w6 @ tr"
    using ev by blast
  have ne: "?ctx \<noteq> []" by simp
  have pre: "prefix ''(Memory unavailable'' ?ctx" by simp
  show ?thesis
  proof (intro exI conjI)
    show "?ctx = ?ctx" by (rule refl)
    show "?ctx \<noteq> []" by (rule ne)
    show "prefix ''(Memory unavailable'' ?ctx" by (rule pre)
    show "events (snd (knowledge_orchestrator sv topic uid w)) =
              events w @ [Printed ?entry, BuildAgent,
                 Printed ''Retrieving prior context from Mem0 memory...'',
                 Retrieve topic uid, Printed ?note,
                 Printed ''Running orchestrator model (Palmyra-X5)...'',
                 RunAgent ?prompt uid] @ tr"
      using tr by (simp only: e6 append_assoc)
    show "fst (knowledge_orchestrator sv topic uid w) = fst (run_agent sv ?prompt uid x2)
              \<or> (\<exists>n. fst (knowledge_orchestrator sv topic uid w) = Inl (BaseOnly n))"
      using res a by (simp only: fst_conv)
  qed
qed

lemma not_expired_example: "\<not> credentials_expired ''connection refused''"
  by code_simp

lemma example_services_simps [simp]:
  "build_agent (example_services e) x = (Inr (), x)"
  "mem0_retrieve (example_services e) q u x = (Inl e, x)"
  "run_agent (example_services e) p u x = (Inr ''ok'', x)"
  "utc_now (example_services e) x = (''2025-01-01 00:00:00 UTC'', x)"
  "mem0_store (example_services e) c u t x = (Inr (), x)"
  by (simp_all add: example_services_def)

theorem retrieval_exception_is_absorbed_witness:
  "build_agent (example_services (Exception ''connection refused'')) (outside example_agent_world)
     = (Inr (), ())
   \<and> mem0_retrieve (example_services (Exception ''connection refused'')) ''rates'' ''user-1'' ()
       = (Inl (Exception ''connection refused''), ())
   \<and> (\<exists>tr. events (snd (knowledge_orchestrator (example_services (Exception ''connection refused''))
                               ''rates'' ''user-1'' example_agent_world)) =
              [Printed ([CHR 0x0A] @ '' [KnowledgeAgent] Coordinating multi-agent reasoning for query: rates''
                          @ [CHR 0x0A]),
               BuildAgent,
               Printed ''Retrieving prior context from Mem0 memory...'',
               Retrieve ''rates'' ''user-1'',
               Printed ''Error retrieving memory: connection refused'',
               Printed ''Running orchestrator model (Palmyra-X5)...'',
               RunAgent (orchestrator_prompt ''(Memory unavailable: connection refused)'' ''rates'')
                 ''user-1'']
              @ tr)
   \<and> (fst (knowledge_orchestrator (example_services (Exception ''connection refused''))
              ''rates'' ''user-1'' example_agent_world) = Inr ''ok''
        \<or> (\<exists>n. fst (knowledge_orchestrator (example_services (Exception ''connection refused''))
                     ''rates'' ''user-1'' example_agent_world) = Inl (BaseOnly n)))"
proof -
  have b: "build_agent (example_services (Exception ''connection refused''))
             (outside example_agent_world) = (Inr (), ())"
    by simp
  have r: "mem0_retrieve (example_services (Exception ''connection refused'')) ''rates'' ''user-1'' ()
             = (Inl (Exception ''connection refused''), ())"
    by simp
  show ?thesis
    using retrieval_exception_is_absorbed [OF b r] b r
    by (simp add: not_expired_example example_agent_world_def)
qed

text \<open>
  The claim as it stands fails: an exception outside \<open>Exception\<close> raised by the retrieval
  passes the handler; the function ends with it and the agent is not called.
\<close>

theorem retrieval_exception_is_absorbed_counterexample:
  "mem0_retrieve (example_services (BaseOnly ''KeyboardInterrupt'')) ''rates'' ''user-1'' ()
     = (Inl (BaseOnly ''KeyboardInterrupt''), ())
   \<and> knowledge_orchestrator (example_services (BaseOnly ''KeyboardInterrupt''))
        ''rates'' ''user-1'' example_agent_world
     = (Inl (BaseOnly ''KeyboardInterrupt''),
        \<lparr>events =
           [Printed ([CHR 0x0A] @ '' [KnowledgeAgent] Coordinating multi-agent reasoning for query: rates''
                       @ [CHR 0x0A]),
            BuildAgent,
            Printed ''Retrieving prior context from Mem0 memory...'',
            Retrieve ''rates'' ''user-1''],
         outside = ()\<rparr>)"
  by (simp add: knowledge_orchestrator_def retrieve_memory_context_def try_retrieve_def
        call_def say_def example_agent_world_def Let_def)

end
